theory Spec2Isabelle
  imports Main "HOL-Library.Word"
begin

text \<open>
  A shallow embedding of the account backend: the two tables, the operations of
  \<^verbatim>\<open>TokenService\<close> and \<^verbatim>\<open>UserService\<close> as functions from a state of the store
  to a result and a new state, and the properties of the token lifecycle, of registration
  and of the password reset. Every \<^verbatim>\<open>throw\<close> is a result \<open>Inl\<close>. What the code draws
  from outside (the clock, the random bytes, the bcrypt hash, the answer of the mail
  transporter) is an argument of the operation. Each operation runs alone, from its first
  statement to its last: interleavings of concurrent requests are not modelled.
\<close>

section \<open>Data model\<close>

text \<open>
  The rows of the two tables, as \<^verbatim>\<open>src/user/User.js\<close> and the uses in
  \<^verbatim>\<open>src/auth/TokenService.js\<close> declare them. A nullable column is an \<open>option\<close>.
  Dates are milliseconds since the epoch (the value of \<^verbatim>\<open>Date.now()\<close>). The columns
  \<^verbatim>\<open>createdAt\<close> and \<^verbatim>\<open>updatedAt\<close> that Sequelize maintains are read by no code of the
  services and are left out.
\<close>

record user =
  idU :: nat
  username :: string
  email :: string
  password :: string
  activationToken :: "string option"
  passwordResetToken :: "string option"
  image :: "string option"
  inactive :: bool

text \<open>
  Modelled from the spec: the Token model (\<^verbatim>\<open>src/auth/Token.js\<close>) is not among the
  sources. Its columns are the ones the spec's persisted layout names and
  \<^verbatim>\<open>TokenService\<close> writes: \<^verbatim>\<open>token\<close>, \<^verbatim>\<open>userId\<close> (the foreign key of
  \<^verbatim>\<open>User.hasMany(Token)\<close>, nullable: the tests create rows without it) and
  \<^verbatim>\<open>lastUsedAt\<close>; \<open>idT\<close> is the auto-increment primary key Sequelize adds.
\<close>

record token_row =
  idT :: nat
  token :: string
  userId :: "nat option"
  lastUsedAt :: int

record mail =
  mail_from :: string
  mail_to :: string
  subject :: string
  html :: string

text \<open>
  What the operations throw. \<open>EmailException\<close>, \<open>InvalidTokenEexception\<close>,
  \<open>NotFoundException\<close> and \<open>ForbiddenException\<close> are the exception classes of the
  repository; \<open>TypeError\<close> is what JavaScript raises when a property of null is
  assigned; \<open>UniqueConstraintError\<close> is Sequelize's refusal of a duplicate in a unique
  column; \<open>TransportError\<close> and \<open>StoreError\<close> stand for a rejection by the mail
  transporter and by the database.
\<close>

datatype error =
    EmailException
  | InvalidTokenEexception
  | NotFoundException string
  | ForbiddenException string
  | TypeError
  | UniqueConstraintError
  | TransportError
  | StoreError

text \<open>
  Every write to the store and every call of the mail transporter is appended to a
  trace, in program order.
\<close>

datatype event =
    Begin
  | Commit
  | Rollback
  | UserCreated user
  | UserSaved user
  | UserDestroyed nat
  | TokenCreated token_row
  | TokenSaved token_row
  | TokenDestroyed "token_row list"
  | MailSent mail bool

record world =
  users :: "user list"
  tokens :: "token_row list"
  nextUserId :: nat
  nextTokenId :: nat
  trace :: "event list"

definition empty_world :: world where
  "empty_world = \<lparr>users = [], tokens = [], nextUserId = 1, nextTokenId = 1, trace = []\<rparr>"

section \<open>The store (Sequelize over the two tables)\<close>

text \<open>
  \<^verbatim>\<open>findOne\<close> returns the first row, in table order, that satisfies the \<^verbatim>\<open>where\<close>
  clause, or null. \<^verbatim>\<open>instance.save()\<close> is an UPDATE of the row with the instance's
  primary key. \<^verbatim>\<open>destroy\<close> deletes every row that satisfies the clause.
\<close>

definition User_findOne :: "(user \<Rightarrow> bool) \<Rightarrow> world \<Rightarrow> user option" where
  "User_findOne wh s = List.find wh (users s)"

definition User_create :: "user \<Rightarrow> world \<Rightarrow> (error + user) \<times> world" where
  "User_create u s =
     (if \<exists>r \<in> set (users s). email r = email u then (Inl UniqueConstraintError, s)
      else let row = u\<lparr>idU := nextUserId s\<rparr> in
        (Inr row, s\<lparr>users := users s @ [row], nextUserId := Suc (nextUserId s),
                     trace := trace s @ [UserCreated row]\<rparr>))"

definition User_save :: "user \<Rightarrow> world \<Rightarrow> world" where
  "User_save u s =
     s\<lparr>users := map (\<lambda>r. if idU r = idU u then u else r) (users s),
       trace := trace s @ [UserSaved u]\<rparr>"

text \<open>\<^verbatim>\<open>User.hasMany(Token, { onDelete: 'cascade', foreignKey: 'userId' })\<close>: deleting a
  user deletes the tokens that reference it.\<close>

definition User_destroy :: "nat \<Rightarrow> world \<Rightarrow> world" where
  "User_destroy i s =
     s\<lparr>users := filter (\<lambda>r. idU r \<noteq> i) (users s),
       tokens := filter (\<lambda>r. userId r \<noteq> Some i) (tokens s),
       trace := trace s @ [UserDestroyed i]\<rparr>"

definition Token_findOne :: "(token_row \<Rightarrow> bool) \<Rightarrow> world \<Rightarrow> token_row option" where
  "Token_findOne wh s = List.find wh (tokens s)"

definition Token_create :: "string \<Rightarrow> nat option \<Rightarrow> int \<Rightarrow> world \<Rightarrow> world" where
  "Token_create tok uid t s =
     (let row = \<lparr>idT = nextTokenId s, token = tok, userId = uid, lastUsedAt = t\<rparr> in
      s\<lparr>tokens := tokens s @ [row], nextTokenId := Suc (nextTokenId s),
        trace := trace s @ [TokenCreated row]\<rparr>)"

definition Token_save :: "token_row \<Rightarrow> world \<Rightarrow> world" where
  "Token_save r s =
     s\<lparr>tokens := map (\<lambda>x. if idT x = idT r then r else x) (tokens s),
       trace := trace s @ [TokenSaved r]\<rparr>"

definition Token_destroy :: "(token_row \<Rightarrow> bool) \<Rightarrow> world \<Rightarrow> world" where
  "Token_destroy wh s =
     s\<lparr>tokens := filter (\<lambda>r. \<not> wh r) (tokens s),
       trace := trace s @ [TokenDestroyed (filter wh (tokens s))]\<rparr>"

text \<open>
  \<^verbatim>\<open>sequelize.transaction()\<close>, \<^verbatim>\<open>commit\<close> and \<^verbatim>\<open>rollback\<close>. Only the insert of
  \<^verbatim>\<open>save\<close> runs inside a transaction; a rollback restores the user table and its
  auto-increment counter to their values at \<^verbatim>\<open>Begin\<close>.
\<close>

definition transaction :: "world \<Rightarrow> world" where
  "transaction s = s\<lparr>trace := trace s @ [Begin]\<rparr>"

definition commit :: "world \<Rightarrow> world" where
  "commit s = s\<lparr>trace := trace s @ [Commit]\<rparr>"

definition rollback :: "world \<Rightarrow> world \<Rightarrow> world" where
  "rollback s0 s = s\<lparr>users := users s0, nextUserId := nextUserId s0,
                       trace := trace s @ [Rollback]\<rparr>"

section \<open>shared/generator.js\<close>

text \<open>
  \<^verbatim>\<open>crypto.randomBytes(length).toString('hex').substr(0, length)\<close>. The entropy source
  is a parameter: \<^verbatim>\<open>randomBytes(n)\<close> returns its first \<open>n\<close> bytes.
\<close>

type_synonym entropy = "nat \<Rightarrow> 8 word"

definition randomBytes :: "entropy \<Rightarrow> nat \<Rightarrow> 8 word list" where
  "randomBytes src n = map src [0..<n]"

definition hexDigit :: "nat \<Rightarrow> char" where
  "hexDigit d = ''0123456789abcdef'' ! d"

definition toHex :: "8 word list \<Rightarrow> string" where
  "toHex bs = concat (map (\<lambda>b. [hexDigit (unat b div 16), hexDigit (unat b mod 16)]) bs)"

definition randomString :: "entropy \<Rightarrow> nat \<Rightarrow> string" where
  "randomString src len = take len (toHex (randomBytes src len))"

section \<open>email/EmailService.js\<close>

text \<open>
  The transporter (\<^verbatim>\<open>config/emailTransporter\<close>) is a parameter: it tells whether
  \<^verbatim>\<open>sendMail\<close> resolves (\<open>True\<close>) or rejects for the given mail.
\<close>

definition sendMail :: "(mail \<Rightarrow> bool) \<Rightarrow> mail \<Rightarrow> world \<Rightarrow> (error + unit) \<times> world" where
  "sendMail transporter m s =
     ((if transporter m then Inr () else Inl TransportError),
      s\<lparr>trace := trace s @ [MailSent m (transporter m)]\<rparr>)"

definition activationMail :: "string \<Rightarrow> string \<Rightarrow> mail" where
  "activationMail addr tok =
     \<lparr>mail_from = ''My App'', mail_to = addr, subject = ''Account Activation'',
      html = ''Token is '' @ tok\<rparr>"

definition passwordResetMail :: "string \<Rightarrow> string \<Rightarrow> mail" where
  "passwordResetMail addr tok =
     \<lparr>mail_from = ''My App'', mail_to = addr, subject = ''Pasword Reset'',
      html = ''Rest Token is '' @ tok\<rparr>"

definition sendActivationToken ::
  "(mail \<Rightarrow> bool) \<Rightarrow> string \<Rightarrow> string \<Rightarrow> world \<Rightarrow> (error + unit) \<times> world" where
  "sendActivationToken transporter addr tok s = sendMail transporter (activationMail addr tok) s"

definition sendPasswordReset ::
  "(mail \<Rightarrow> bool) \<Rightarrow> string \<Rightarrow> string \<Rightarrow> world \<Rightarrow> (error + unit) \<times> world" where
  "sendPasswordReset transporter addr tok s = sendMail transporter (passwordResetMail addr tok) s"

section \<open>auth/TokenService.js\<close>

text \<open>The clock is a parameter: one argument for each reading of the clock.\<close>

definition createToken :: "entropy \<Rightarrow> int \<Rightarrow> user \<Rightarrow> world \<Rightarrow> string \<times> world" where
  "createToken src now u s =
     (let tok = randomString src 32 in
      (tok, Token_create tok (Some (idU u)) now s))"

text \<open>
  \<open>now\<close> is \<^verbatim>\<open>Date.now()\<close> of line 83, \<open>now'\<close> the \<^verbatim>\<open>new Date()\<close> of line 85.
  When \<^verbatim>\<open>findOne\<close> yields null, the assignment to \<^verbatim>\<open>tokenInDb.lastUsedAt\<close> raises a
  TypeError; nothing was written.
\<close>

definition verify :: "int \<Rightarrow> int \<Rightarrow> string \<Rightarrow> world \<Rightarrow> (error + nat option) \<times> world" where
  "verify now now' tok s =
     (let oneWeekAgo = now - 7 * 24 * 60 * 60 * 1000 in
      case Token_findOne (\<lambda>r. token r = tok \<and> lastUsedAt r > oneWeekAgo) s of
        None \<Rightarrow> (Inl TypeError, s)
      | Some tokenInDb \<Rightarrow>
          (let tokenInDb' = tokenInDb\<lparr>lastUsedAt := now'\<rparr> in
           (Inr (userId tokenInDb'), Token_save tokenInDb' s)))"

definition deleteToken :: "string \<Rightarrow> world \<Rightarrow> world" where
  "deleteToken tok s = Token_destroy (\<lambda>r. token r = tok) s"

text \<open>
  The callback that \<^verbatim>\<open>scheduleCleanup\<close> hands to \<^verbatim>\<open>setInterval\<close>. It has no
  \<^verbatim>\<open>try\<close>: when the store rejects the \<^verbatim>\<open>destroy\<close> (\<open>storeUp = False\<close>), the
  callback's promise is rejected with the store's error.
\<close>

definition cleanup :: "bool \<Rightarrow> int \<Rightarrow> world \<Rightarrow> (error + unit) \<times> world" where
  "cleanup storeUp now s =
     (let oneWeekAgo = now - 7 * 24 * 60 * 60 * 1000 in
      if storeUp then (Inr (), Token_destroy (\<lambda>r. lastUsedAt r < oneWeekAgo) s)
      else (Inl StoreError, s))"

text \<open>
  \<^verbatim>\<open>setInterval(callback, delay)\<close>, started at time \<open>t\<close>: the callback fires at
  \<open>t + delay\<close>, \<open>t + 2 * delay\<close>, ..., once for each element of the list, which tells
  whether the store is up at that firing. The timer discards the promise the callback
  returns. The repository handles a rejected promise nowhere (no \<^verbatim>\<open>catch\<close> in the
  callback, no \<^verbatim>\<open>unhandledRejection\<close> listener), and Node, since version 15, ends the
  process on an unhandled rejection: the first rejected firing is the last one. The result
  is the error that ended the process, if any, and the store as the firings left it.
\<close>

fun setInterval ::
  "(bool \<Rightarrow> int \<Rightarrow> world \<Rightarrow> (error + unit) \<times> world) \<Rightarrow> int \<Rightarrow> int \<Rightarrow> bool list \<Rightarrow> world
     \<Rightarrow> error option \<times> world" where
  "setInterval callback delay t [] s = (None, s)"
| "setInterval callback delay t (up # ups) s =
     (case callback up (t + delay) s of
        (Inl e, s') \<Rightarrow> (Some e, s')
      | (Inr x, s') \<Rightarrow> setInterval callback delay (t + delay) ups s')"

definition scheduleCleanup :: "int \<Rightarrow> bool list \<Rightarrow> world \<Rightarrow> error option \<times> world" where
  "scheduleCleanup t ups s = setInterval cleanup (60 * 60 * 1000) t ups s"

definition clearTokens :: "nat \<Rightarrow> world \<Rightarrow> world" where
  "clearTokens uid s = Token_destroy (\<lambda>r. userId r = Some uid) s"

section \<open>user/UserService.js\<close>

text \<open>
  \<^verbatim>\<open>bcrypt.hash(password, 10)\<close> is a parameter \<open>bcrypt_hash\<close>: the hash this call
  returns for the plain text. The object handed to \<^verbatim>\<open>User.create\<close> names four columns;
  the others take the defaults of the model (\<^verbatim>\<open>inactive\<close>: true, the rest null).
\<close>

definition save ::
  "(mail \<Rightarrow> bool) \<Rightarrow> (string \<Rightarrow> string) \<Rightarrow> entropy \<Rightarrow> string \<times> string \<times> string \<Rightarrow> world
     \<Rightarrow> (error + unit) \<times> world" where
  "save transporter bcrypt_hash src body s =
     (case body of (uname, addr, pw) \<Rightarrow>
        let hash = bcrypt_hash pw;
            actTok = randomString src 16;
            u = \<lparr>idU = 0, username = uname, email = addr, password = hash,
                 activationToken = Some actTok, passwordResetToken = None, image = None,
                 inactive = True\<rparr>;
            t = transaction s
        in case User_create u t of
             (Inl e, t1) \<Rightarrow> (Inl EmailException, rollback s t1)
           | (Inr row, t1) \<Rightarrow>
               (case sendActivationToken transporter addr actTok t1 of
                  (Inl e, t2) \<Rightarrow> (Inl EmailException, rollback s t2)
                | (Inr x, t2) \<Rightarrow> (Inr (), commit t2)))"

definition findByEmail :: "string \<Rightarrow> world \<Rightarrow> user option" where
  "findByEmail addr s = User_findOne (\<lambda>r. email r = addr) s"

definition activate :: "string \<Rightarrow> world \<Rightarrow> (error + unit) \<times> world" where
  "activate tok s =
     (case User_findOne (\<lambda>r. activationToken r = Some tok) s of
        None \<Rightarrow> (Inl InvalidTokenEexception, s)
      | Some u \<Rightarrow> (Inr (), User_save (u\<lparr>inactive := False, activationToken := None\<rparr>) s))"

text \<open>
  \<^verbatim>\<open>updateUser\<close>: the profile image is stored by \<^verbatim>\<open>FileService\<close> under a random name
  of 32 characters; the file system itself is not modelled. \<^verbatim>\<open>if (body.image)\<close> is
  false for a missing and for an empty string. A null user raises a TypeError at the
  assignment to \<^verbatim>\<open>user.username\<close>.
\<close>

definition updateUser ::
  "entropy \<Rightarrow> nat \<Rightarrow> string \<times> string option \<Rightarrow> world
     \<Rightarrow> (error + nat \<times> string \<times> string \<times> string option) \<times> world" where
  "updateUser src i body s =
     (case body of (uname, img) \<Rightarrow>
        case User_findOne (\<lambda>r. idU r = i) s of
          None \<Rightarrow> (Inl TypeError, s)
        | Some u \<Rightarrow>
            (let u1 = u\<lparr>username := uname\<rparr>;
                 u2 = (if img = None \<or> img = Some [] then u1
                       else u1\<lparr>image := Some (randomString src 32)\<rparr>)
             in (Inr (i, username u2, email u2, image u2), User_save u2 s)))"

definition deleteUser :: "nat \<Rightarrow> world \<Rightarrow> world" where
  "deleteUser i s = User_destroy i s"

definition passwordResetRequest ::
  "(mail \<Rightarrow> bool) \<Rightarrow> entropy \<Rightarrow> string \<Rightarrow> world \<Rightarrow> (error + unit) \<times> world" where
  "passwordResetRequest transporter src addr s =
     (case findByEmail addr s of
        None \<Rightarrow> (Inl (NotFoundException ''email_not_in_use''), s)
      | Some u \<Rightarrow>
          (let resetTok = randomString src 16;
               u' = u\<lparr>passwordResetToken := Some resetTok\<rparr>;
               s1 = User_save u' s
           in case sendPasswordReset transporter addr resetTok s1 of
                (Inl e, s2) \<Rightarrow> (Inl EmailException, s2)
              | (Inr x, s2) \<Rightarrow> (Inr (), s2)))"

definition findByPasswordResetToken :: "string \<Rightarrow> world \<Rightarrow> user option" where
  "findByPasswordResetToken tok s = User_findOne (\<lambda>r. passwordResetToken r = Some tok) s"

text \<open>
  \<^verbatim>\<open>updatePassword\<close> does not test the user it looked up: on null, the assignment to
  \<^verbatim>\<open>user.password\<close> raises a TypeError, after the hash was computed and before any write.
\<close>

definition updatePassword ::
  "(string \<Rightarrow> string) \<Rightarrow> string \<Rightarrow> string \<Rightarrow> world \<Rightarrow> (error + unit) \<times> world" where
  "updatePassword bcrypt_hash tok pw s =
     (case findByPasswordResetToken tok s of
        None \<Rightarrow> (Inl TypeError, s)
      | Some u \<Rightarrow>
          (let hash = bcrypt_hash pw;
               u' = u\<lparr>password := hash, passwordResetToken := None, inactive := False,
                      activationToken := None\<rparr>;
               s1 = User_save u' s
           in (Inr (), clearTokens (idU u') s1)))"

section \<open>Reachable states\<close>

text \<open>
  The operations of the two services, with the parameters of each call. The reachable
  states are the states \<open>run cs empty_world\<close>: what a sequence of operations makes of the
  empty store.
\<close>

datatype command =
    Save "mail \<Rightarrow> bool" "string \<Rightarrow> string" entropy "string \<times> string \<times> string"
  | Activate string
  | UpdateUser entropy nat "string \<times> string option"
  | DeleteUser nat
  | PasswordResetRequest "mail \<Rightarrow> bool" entropy string
  | UpdatePassword "string \<Rightarrow> string" string string
  | CreateToken entropy int user
  | Verify int int string
  | DeleteToken string
  | ClearTokens nat
  | Cleanup bool int

fun exec :: "command \<Rightarrow> world \<Rightarrow> world" where
  "exec (Save transporter bcrypt_hash src body) s = snd (save transporter bcrypt_hash src body s)"
| "exec (Activate tok) s = snd (activate tok s)"
| "exec (UpdateUser src i body) s = snd (updateUser src i body s)"
| "exec (DeleteUser i) s = deleteUser i s"
| "exec (PasswordResetRequest transporter src addr) s =
     snd (passwordResetRequest transporter src addr s)"
| "exec (UpdatePassword bcrypt_hash tok pw) s = snd (updatePassword bcrypt_hash tok pw s)"
| "exec (CreateToken src now u) s = snd (createToken src now u s)"
| "exec (Verify now now' tok) s = snd (verify now now' tok s)"
| "exec (DeleteToken tok) s = deleteToken tok s"
| "exec (ClearTokens uid) s = clearTokens uid s"
| "exec (Cleanup storeUp now) s = snd (cleanup storeUp now s)"

fun run :: "command list \<Rightarrow> world \<Rightarrow> world" where
  "run [] s = s"
| "run (c # cs) s = run cs (exec c s)"

text \<open>The invariant of the user table: an active user holds no activation token.\<close>

definition user_inv :: "world \<Rightarrow> bool" where
  "user_inv s \<longleftrightarrow> (\<forall>u \<in> set (users s). \<not> inactive u \<longrightarrow> activationToken u = None)"

text \<open>Primary keys are unique and below the auto-increment counters.\<close>

definition keys_ok :: "world \<Rightarrow> bool" where
  "keys_ok s \<longleftrightarrow>
     distinct (map idU (users s)) \<and> (\<forall>u \<in> set (users s). idU u < nextUserId s) \<and>
     distinct (map idT (tokens s)) \<and> (\<forall>r \<in> set (tokens s). idT r < nextTokenId s)"

section \<open>Fixtures\<close>

text \<open>The fixture of the test suites: one active user, and a token last used at time 0.\<close>

definition user1 :: user where
  "user1 = \<lparr>idU = 1, username = ''user1'', email = ''user1@mail.com'', password = ''hash-1'',
            activationToken = None, passwordResetToken = None, image = None,
            inactive = False\<rparr>"

definition world1 :: world where
  "world1 = \<lparr>users = [user1],
             tokens = [\<lparr>idT = 1, token = ''test-token'', userId = Some 1, lastUsedAt = 0\<rparr>],
             nextUserId = 2, nextTokenId = 2, trace = []\<rparr>"

text \<open>A second, inactive user who holds an activation token, a reset token and a
  session token: the fixture of the password reset tests.\<close>

definition user2 :: user where
  "user2 = \<lparr>idU = 2, username = ''user2'', email = ''user2@mail.com'', password = ''hash-2'',
            activationToken = Some ''activation-token'',
            passwordResetToken = Some ''reset-token'', image = None, inactive = True\<rparr>"

definition world2 :: world where
  "world2 = \<lparr>users = [user1, user2],
             tokens = [\<lparr>idT = 1, token = ''test-token'', userId = Some 1, lastUsedAt = 0\<rparr>,
                       \<lparr>idT = 2, token = ''token-1'', userId = Some 2, lastUsedAt = 0\<rparr>],
             nextUserId = 3, nextTokenId = 3, trace = []\<rparr>"

text \<open>A registration with a working transporter, followed by the activation with the
  token that was mailed.\<close>

definition register_then_activate :: "command list" where
  "register_then_activate =
     [Save (\<lambda>_. True) (\<lambda>p. ''hash-'' @ p) (\<lambda>_. 0) (''user1'', ''user1@mail.com'', ''P4ssword''),
      Activate ''0000000000000000'']"

section \<open>Auxiliary facts\<close>

lemma length_toHex: "length (toHex bs) = 2 * length bs"
  by (induction bs) (simp_all add: toHex_def)

lemma length_randomString: "length (randomString src n) = n"
  by (simp add: randomString_def length_toHex randomBytes_def)

lemma find_append_fresh:
  "\<forall>x \<in> set xs. \<not> P x \<Longrightarrow> List.find P (xs @ [y]) = (if P y then Some y else None)"
  by (induction xs) auto

lemma find_None_iff_set: "List.find P xs = None \<longleftrightarrow> (\<forall>x \<in> set xs. \<not> P x)"
  by (induction xs) auto

lemma find_Some_set: "List.find P xs = Some x \<Longrightarrow> x \<in> set xs \<and> P x"
  by (induction xs) (auto split: if_splits)

text \<open>With a unique key, an UPDATE by key touches the one row it was read from.\<close>

lemma map_replace_by_key:
  assumes "distinct (map f xs)" and "x \<in> set xs"
  shows "map (\<lambda>r. if f r = f x then y else r) xs = map (\<lambda>r. if r = x then y else r) xs"
proof (rule map_cong[OF refl])
  fix r assume "r \<in> set xs"
  with assms have "f r = f x \<longleftrightarrow> r = x"
    by (meson distinct_map inj_onD)
  then show "(if f r = f x then y else r) = (if r = x then y else r)" by simp
qed

lemma find_map_key_first:
  assumes "List.find P xs = Some u" and "P u'" and "f u' = f u"
  shows "List.find P (map (\<lambda>r. if f r = f u then u' else r) xs) = Some u'"
  using assms by (induction xs) (auto split: if_splits)

lemma find_map_key_None:
  assumes "\<forall>x \<in> set xs. f x \<noteq> f u \<longrightarrow> \<not> P x" and "\<not> P u'"
  shows "List.find P (map (\<lambda>r. if f r = f u then u' else r) xs) = None"
  using assms by (induction xs) auto

lemma rs0: "randomString (\<lambda>_. 0) 16 = ''0000000000000000''"
  by (simp add: randomString_def toHex_def randomBytes_def hexDigit_def upt_rec)

lemma rs1: "randomString (\<lambda>_. 1) 16 = ''0101010101010101''"
  by (simp add: randomString_def toHex_def randomBytes_def hexDigit_def upt_rec)

lemma verify_no_row:
  assumes "\<forall>t \<in> set (tokens s). token t \<noteq> tok"
  shows "verify now now' tok s = (Inl TypeError, s)"
proof -
  have "List.find (\<lambda>r. token r = tok \<and> now - 7 * 24 * 60 * 60 * 1000 < lastUsedAt r) (tokens s) = None"
    using assms by (simp add: find_None_iff_set)
  then show ?thesis by (simp add: verify_def Token_findOne_def)
qed

lemma users_passwordResetRequest:
  assumes "findByEmail addr s = Some u"
  shows "users (snd (passwordResetRequest transporter src addr s)) =
           map (\<lambda>x. if idU x = idU u then u\<lparr>passwordResetToken := Some (randomString src 16)\<rparr> else x)
             (users s)"
  using assms
  by (simp add: passwordResetRequest_def sendPasswordReset_def sendMail_def User_save_def Let_def)

lemma findByEmail_passwordResetRequest:
  assumes "findByEmail addr s = Some u"
  shows "findByEmail addr (snd (passwordResetRequest transporter src addr s)) =
           Some (u\<lparr>passwordResetToken := Some (randomString src 16)\<rparr>)"
proof -
  let ?u' = "u\<lparr>passwordResetToken := Some (randomString src 16)\<rparr>"
  have f: "List.find (\<lambda>r. email r = addr) (users s) = Some u"
    using assms by (simp add: findByEmail_def User_findOne_def)
  then have "email u = addr" using find_Some_set[OF f] by simp
  then have "email ?u' = addr" "idU ?u' = idU u" by simp_all
  from find_map_key_first[where f = idU, OF f this]
  show ?thesis
    unfolding findByEmail_def User_findOne_def users_passwordResetRequest[OF assms] .
qed



subsection \<open>A scenario of the spec\<close>

text \<open>The scenario of the spec: a token issued at time 0 verifies after four days, which
  refreshes it; eight days after the refresh it is refused.\<close>

lemma scenario_issue_refresh_expire:
  "fst (createToken (\<lambda>_. 0) 0 user1 empty_world) = ''00000000000000000000000000000000'' \<and>
   fst (verify 345600000 345600000 ''00000000000000000000000000000000''
          (snd (createToken (\<lambda>_. 0) 0 user1 empty_world))) = Inr (Some 1) \<and>
   fst (verify 1036800000 1036800000 ''00000000000000000000000000000000''
          (snd (verify 345600000 345600000 ''00000000000000000000000000000000''
             (snd (createToken (\<lambda>_. 0) 0 user1 empty_world))))) = Inl TypeError"
  by (simp add: createToken_def verify_def Token_create_def Token_findOne_def Token_save_def
        empty_world_def user1_def Let_def randomString_def toHex_def randomBytes_def
        hexDigit_def upt_rec)

subsection \<open>The invariant of the user table, operation by operation\<close>

lemma user_inv_User_save:
  "user_inv s \<Longrightarrow> (\<not> inactive u \<longrightarrow> activationToken u = None) \<Longrightarrow> user_inv (User_save u s)"
  by (auto simp: user_inv_def User_save_def)

lemma user_inv_same_users: "users s' = users s \<Longrightarrow> user_inv s' = user_inv s"
  by (simp add: user_inv_def)

lemma find_user_inv:
  "user_inv s \<Longrightarrow> User_findOne wh s = Some u \<Longrightarrow> \<not> inactive u \<longrightarrow> activationToken u = None"
  using find_Some_set[of wh "users s" u] by (auto simp: user_inv_def User_findOne_def)

lemma user_inv_save:
  "user_inv s \<Longrightarrow> user_inv (snd (save transporter bcrypt_hash src body s))"
  by (cases body)
     (auto simp: save_def User_create_def transaction_def sendActivationToken_def sendMail_def
        commit_def rollback_def Let_def user_inv_def)

lemma user_inv_activate: "user_inv s \<Longrightarrow> user_inv (snd (activate tok s))"
  by (auto simp: activate_def user_inv_User_save split: option.splits)

lemma user_inv_updateUser: "user_inv s \<Longrightarrow> user_inv (snd (updateUser src i body s))"
proof (cases body)
  case (Pair uname img)
  assume inv: "user_inv s"
  show ?thesis
  proof (cases "User_findOne (\<lambda>r. idU r = i) s")
    case None
    with inv Pair show ?thesis by (simp add: updateUser_def)
  next
    case (Some u)
    from find_user_inv[OF inv Some] have "\<not> inactive u \<longrightarrow> activationToken u = None" .
    with inv Pair Some show ?thesis
      by (simp add: updateUser_def Let_def user_inv_User_save)
  qed
qed

lemma user_inv_deleteUser: "user_inv s \<Longrightarrow> user_inv (deleteUser i s)"
  by (auto simp: deleteUser_def User_destroy_def user_inv_def)

lemma user_inv_passwordResetRequest:
  assumes "user_inv s"
  shows "user_inv (snd (passwordResetRequest transporter src addr s))"
proof (cases "findByEmail addr s")
  case None
  with assms show ?thesis by (simp add: passwordResetRequest_def)
next
  case (Some u)
  then have "User_findOne (\<lambda>r. email r = addr) s = Some u" by (simp add: findByEmail_def)
  from find_user_inv[OF assms this] have "\<not> inactive u \<longrightarrow> activationToken u = None" .
  then have "user_inv (User_save (u\<lparr>passwordResetToken := Some (randomString src 16)\<rparr>) s)"
    using assms by (intro user_inv_User_save) simp_all
  with Some show ?thesis
    by (simp add: passwordResetRequest_def sendPasswordReset_def sendMail_def Let_def user_inv_def)
qed

lemma user_inv_updatePassword:
  assumes "user_inv s"
  shows "user_inv (snd (updatePassword bcrypt_hash tok pw s))"
proof (cases "findByPasswordResetToken tok s")
  case None
  with assms show ?thesis by (simp add: updatePassword_def)
next
  case (Some u)
  have "user_inv (User_save (u\<lparr>password := bcrypt_hash pw, passwordResetToken := None,
                      inactive := False, activationToken := None\<rparr>) s)"
    using assms by (intro user_inv_User_save) simp_all
  with Some show ?thesis
    by (simp add: updatePassword_def clearTokens_def Token_destroy_def Let_def user_inv_def)
qed

lemma user_inv_token_ops:
  "user_inv (snd (createToken src now u s)) = user_inv s"
  "user_inv (snd (verify now now' tok s)) = user_inv s"
  "user_inv (deleteToken tok s) = user_inv s"
  "user_inv (clearTokens uid s) = user_inv s"
  "user_inv (snd (cleanup storeUp now s)) = user_inv s"
  by (simp_all add: user_inv_def createToken_def verify_def deleteToken_def clearTokens_def
        cleanup_def Token_create_def Token_save_def Token_destroy_def Let_def
        split: option.splits)

lemma exec_preserves_user_inv: "user_inv s \<Longrightarrow> user_inv (exec c s)"
  by (cases c)
     (simp_all add: user_inv_save user_inv_activate user_inv_updateUser user_inv_deleteUser
        user_inv_passwordResetRequest user_inv_updatePassword user_inv_token_ops)

lemma user_inv_empty: "user_inv empty_world"
  by (simp add: user_inv_def empty_world_def)

lemma run_preserves_user_inv: "user_inv s \<Longrightarrow> user_inv (run cs s)"
  by (induction cs arbitrary: s) (simp_all add: exec_preserves_user_inv)

subsection \<open>Primary keys stay unique\<close>

text \<open>The theorems below that speak of the one row an UPDATE touches assume unique
  primary keys; every reachable state has them.\<close>

lemma map_key_replace: "map f (map (\<lambda>r. if f r = f u then u else r) xs) = map f xs"
  by (induction xs) auto

lemma keys_ok_by_maps:
  "keys_ok s \<longleftrightarrow>
     distinct (map idU (users s)) \<and> (\<forall>i \<in> set (map idU (users s)). i < nextUserId s) \<and>
     distinct (map idT (tokens s)) \<and> (\<forall>i \<in> set (map idT (tokens s)). i < nextTokenId s)"
  by (simp add: keys_ok_def)

lemma keys_ok_cong:
  assumes "map idU (users s') = map idU (users s)" and "nextUserId s' = nextUserId s"
    and "map idT (tokens s') = map idT (tokens s)" and "nextTokenId s' = nextTokenId s"
  shows "keys_ok s' = keys_ok s"
  unfolding keys_ok_by_maps assms ..

lemma keys_ok_User_save: "keys_ok (User_save u s) = keys_ok s"
  by (rule keys_ok_cong) (simp_all add: User_save_def map_key_replace)

lemma keys_ok_Token_save: "keys_ok (Token_save r s) = keys_ok s"
  by (rule keys_ok_cong) (simp_all add: Token_save_def map_key_replace)

lemma keys_ok_trace: "keys_ok (s\<lparr>trace := tr\<rparr>) = keys_ok s"
  by (simp add: keys_ok_def)

lemma keys_ok_Token_destroy: "keys_ok s \<Longrightarrow> keys_ok (Token_destroy wh s)"
  by (auto simp: keys_ok_def Token_destroy_def distinct_map_filter)

lemma keys_ok_User_destroy: "keys_ok s \<Longrightarrow> keys_ok (User_destroy i s)"
  by (auto simp: keys_ok_def User_destroy_def distinct_map_filter)

lemma keys_ok_Token_create: "keys_ok s \<Longrightarrow> keys_ok (Token_create tok uid t s)"
  by (auto simp: keys_ok_def Token_create_def Let_def less_Suc_eq)

lemma keys_ok_save:
  "keys_ok s \<Longrightarrow> keys_ok (snd (save transporter bcrypt_hash src body s))"
  by (cases body)
     (auto simp: save_def User_create_def transaction_def sendActivationToken_def sendMail_def
        commit_def rollback_def Let_def keys_ok_def less_Suc_eq)

lemma keys_ok_activate: "keys_ok s \<Longrightarrow> keys_ok (snd (activate tok s))"
  by (simp add: activate_def keys_ok_User_save split: option.splits)

lemma keys_ok_updateUser: "keys_ok s \<Longrightarrow> keys_ok (snd (updateUser src i body s))"
  by (cases body) (simp add: updateUser_def Let_def keys_ok_User_save split: option.splits)

lemma keys_ok_passwordResetRequest:
  "keys_ok s \<Longrightarrow> keys_ok (snd (passwordResetRequest transporter src addr s))"
  by (simp add: passwordResetRequest_def sendPasswordReset_def sendMail_def Let_def
        keys_ok_User_save keys_ok_trace split: option.splits)

lemma keys_ok_updatePassword:
  "keys_ok s \<Longrightarrow> keys_ok (snd (updatePassword bcrypt_hash tok pw s))"
  by (simp add: updatePassword_def clearTokens_def Let_def keys_ok_User_save
        keys_ok_Token_destroy split: option.splits)

lemma keys_ok_verify: "keys_ok s \<Longrightarrow> keys_ok (snd (verify now now' tok s))"
  by (simp add: verify_def Let_def keys_ok_Token_save split: option.splits)

lemma exec_preserves_keys_ok: "keys_ok s \<Longrightarrow> keys_ok (exec c s)"
  by (cases c)
     (simp_all add: keys_ok_save keys_ok_activate keys_ok_updateUser keys_ok_User_destroy
        deleteUser_def keys_ok_passwordResetRequest keys_ok_updatePassword createToken_def Let_def
        keys_ok_Token_create keys_ok_verify deleteToken_def clearTokens_def cleanup_def
        keys_ok_Token_destroy)

lemma run_preserves_keys_ok: "keys_ok s \<Longrightarrow> keys_ok (run cs s)"
  by (induction cs arbitrary: s) (simp_all add: exec_preserves_keys_ok)

lemma reachable_keys_ok: "keys_ok (run cs empty_world)"
  by (rule run_preserves_keys_ok) (simp add: keys_ok_def empty_world_def)

section \<open>Session tokens\<close>

text \<open>
  C9. A token issued by \<open>createToken\<close> for a user verifies right after issuance and
  yields that user's id: provided the random string does not collide with a token already
  stored (the code has no collision handling) and less than seven days have passed since
  issuance, \<open>verify\<close> on the issued string succeeds with the id of the user.
\<close>

theorem createToken_verify_roundtrip:
  assumes "randomString src 32 \<notin> token ` set (tokens s)"
    and "now - t0 < 7 * 24 * 60 * 60 * 1000"
  shows "fst (createToken src t0 u s) = randomString src 32 \<and>
         fst (verify now now' (fst (createToken src t0 u s)) (snd (createToken src t0 u s)))
           = Inr (Some (idU u))"
proof -
  let ?tok = "randomString src 32"
  let ?row = "\<lparr>idT = nextTokenId s, token = ?tok, userId = Some (idU u), lastUsedAt = t0\<rparr>"
  let ?P = "\<lambda>r. token r = ?tok \<and> now - 7 * 24 * 60 * 60 * 1000 < lastUsedAt r"
  have old: "\<forall>x \<in> set (tokens s). \<not> ?P x"
    using assms(1) by (auto simp: image_iff)
  have "List.find ?P (tokens s @ [?row]) = Some ?row"
    using find_append_fresh[OF old, of ?row] assms(2) by simp
  then show ?thesis
    by (simp add: createToken_def verify_def Token_create_def Token_findOne_def Let_def)
qed

theorem createToken_verify_roundtrip_witness:
  "randomString (\<lambda>_. 0) 32 \<notin> token ` set (tokens world1) \<and>
   (1000 :: int) - 900 < 7 * 24 * 60 * 60 * 1000 \<and>
   fst (verify 1000 1001 (fst (createToken (\<lambda>_. 0) 900 user1 world1))
          (snd (createToken (\<lambda>_. 0) 900 user1 world1))) = Inr (Some (idU user1)) \<and>
   idU user1 = 1"
proof -
  have fresh: "randomString (\<lambda>_. 0) 32 \<notin> token ` set (tokens world1)"
    by (simp add: world1_def randomString_def toHex_def randomBytes_def hexDigit_def upt_rec)
  have young: "(1000 :: int) - 900 < 7 * 24 * 60 * 60 * 1000" by simp
  have "idU user1 = 1" by (simp add: user1_def)
  with fresh young createToken_verify_roundtrip[OF fresh young, where u = user1 and now' = 1001]
  show ?thesis by blast
qed

text \<open>
  C1, as amended. \<open>verify\<close> fails when no row carries the token string or when, for
  every row that carries it, \<open>now - lastUsedAt \<ge> 7 days\<close> (the query keeps a row only if
  \<open>lastUsedAt > now - 7 days\<close>, so a row aged exactly seven days is already refused); the
  failure is the TypeError raised on the null row, and nothing is written. Otherwise there
  is a row with that string and \<open>now - lastUsedAt < 7 days\<close> whose \<open>userId\<close> is returned
  and whose \<open>lastUsedAt\<close> is set to the second reading of the clock, which is not before
  the verification time; all other rows are as before.
\<close>

theorem verify_spec:
  assumes "distinct (map idT (tokens s))" and "now \<le> now'"
  shows "if \<forall>r \<in> set (tokens s). token r = tok \<longrightarrow> 7 * 24 * 60 * 60 * 1000 \<le> now - lastUsedAt r
         then verify now now' tok s = (Inl TypeError, s)
         else \<exists>r \<in> set (tokens s).
                token r = tok \<and> now - lastUsedAt r < 7 * 24 * 60 * 60 * 1000 \<and>
                fst (verify now now' tok s) = Inr (userId r) \<and>
                tokens (snd (verify now now' tok s)) =
                  map (\<lambda>x. if x = r then r\<lparr>lastUsedAt := now'\<rparr> else x) (tokens s) \<and>
                users (snd (verify now now' tok s)) = users s \<and>
                (\<exists>r' \<in> set (tokens (snd (verify now now' tok s))).
                   idT r' = idT r \<and> token r' = tok \<and> now \<le> lastUsedAt r')"
proof -
  let ?P = "\<lambda>r. token r = tok \<and> now - 7 * 24 * 60 * 60 * 1000 < lastUsedAt r"
  show ?thesis
  proof (cases "List.find ?P (tokens s)")
    case None
    then have "\<forall>r \<in> set (tokens s). \<not> ?P r" by (simp add: find_None_iff_set)
    then have all: "\<forall>r \<in> set (tokens s). token r = tok \<longrightarrow> 7 * 24 * 60 * 60 * 1000 \<le> now - lastUsedAt r"
      by auto
    have "verify now now' tok s = (Inl TypeError, s)"
      using None by (simp add: verify_def Token_findOne_def)
    with all show ?thesis by simp
  next
    case (Some r)
    then have r: "r \<in> set (tokens s)" "token r = tok" "now - lastUsedAt r < 7 * 24 * 60 * 60 * 1000"
      using find_Some_set[OF Some] by auto
    then have notall: "\<not> (\<forall>r \<in> set (tokens s). token r = tok \<longrightarrow> 7 * 24 * 60 * 60 * 1000 \<le> now - lastUsedAt r)"
      by force
    have res: "verify now now' tok s = (Inr (userId r), Token_save (r\<lparr>lastUsedAt := now'\<rparr>) s)"
      using Some by (simp add: verify_def Token_findOne_def Let_def)
    have toks: "tokens (Token_save (r\<lparr>lastUsedAt := now'\<rparr>) s) =
                  map (\<lambda>x. if x = r then r\<lparr>lastUsedAt := now'\<rparr> else x) (tokens s)"
      using map_replace_by_key[OF assms(1) r(1), of "r\<lparr>lastUsedAt := now'\<rparr>"]
      by (simp add: Token_save_def)
    have mem: "r\<lparr>lastUsedAt := now'\<rparr> \<in> set (tokens (Token_save (r\<lparr>lastUsedAt := now'\<rparr>) s))"
      unfolding toks using r(1) by (auto simp: image_iff)
    have "\<exists>r' \<in> set (tokens (Token_save (r\<lparr>lastUsedAt := now'\<rparr>) s)).
             idT r' = idT r \<and> token r' = tok \<and> now \<le> lastUsedAt r'"
      using mem r(2) assms(2) by (intro bexI[of _ "r\<lparr>lastUsedAt := now'\<rparr>"]) simp_all
    moreover have "users (Token_save (r\<lparr>lastUsedAt := now'\<rparr>) s) = users s"
      by (simp add: Token_save_def)
    ultimately show ?thesis
      using notall r res toks by (auto simp del: One_nat_def)
  qed
qed

theorem verify_spec_witness:
  "distinct (map idT (tokens world1)) \<and> (345600000 :: int) \<le> 345600005 \<and>
   \<not> (\<forall>r \<in> set (tokens world1).
        token r = ''test-token'' \<longrightarrow> 7 * 24 * 60 * 60 * 1000 \<le> 345600000 - lastUsedAt r) \<and>
   fst (verify 345600000 345600005 ''test-token'' world1) = Inr (Some 1) \<and>
   map lastUsedAt (tokens (snd (verify 345600000 345600005 ''test-token'' world1))) = [345600005] \<and>
   list_all (\<lambda>r. token r = ''test-token'' \<longrightarrow> 7 * 24 * 60 * 60 * 1000 \<le> 691200000 - lastUsedAt r)
     (tokens world1) \<and>
   verify 691200000 691200005 ''test-token'' world1 = (Inl TypeError, world1)"
proof -
  have d: "distinct (map idT (tokens world1))" by (simp add: world1_def)
  have le: "(345600000 :: int) \<le> 345600005" by simp
  have fresh: "\<not> (\<forall>r \<in> set (tokens world1).
        token r = ''test-token'' \<longrightarrow> 7 * 24 * 60 * 60 * 1000 \<le> 345600000 - lastUsedAt r)"
    by (simp add: world1_def)
  from verify_spec[OF d le, of "''test-token''"] fresh
  have "\<exists>r \<in> set (tokens world1).
          fst (verify 345600000 345600005 ''test-token'' world1) = Inr (userId r) \<and>
          tokens (snd (verify 345600000 345600005 ''test-token'' world1)) =
            map (\<lambda>x. if x = r then r\<lparr>lastUsedAt := 345600005\<rparr> else x) (tokens world1)"
    by (simp only: if_False) blast
  then have ok: "fst (verify 345600000 345600005 ''test-token'' world1) = Inr (Some 1) \<and>
     map lastUsedAt (tokens (snd (verify 345600000 345600005 ''test-token'' world1))) = [345600005]"
    by (auto simp: world1_def)
  have old: "\<forall>r \<in> set (tokens world1).
        token r = ''test-token'' \<longrightarrow> 7 * 24 * 60 * 60 * 1000 \<le> 691200000 - lastUsedAt r"
    by (simp add: world1_def)
  have le2: "(691200000 :: int) \<le> 691200005" by simp
  from verify_spec[OF d le2, of "''test-token''"] old
  have expired: "verify 691200000 691200005 ''test-token'' world1 = (Inl TypeError, world1)"
    by (simp only: if_True)
  from old have la: "list_all (\<lambda>r. token r = ''test-token'' \<longrightarrow>
      7 * 24 * 60 * 60 * 1000 \<le> 691200000 - lastUsedAt r) (tokens world1)"
    by (simp add: list_all_iff)
  from d le fresh ok la expired show ?thesis by blast
qed

text \<open>
  The claim as stated lets a token pass whenever \<open>now - lastUsedAt > 7 days\<close> is false.
  A row aged exactly seven days is refused.
\<close>

theorem verify_boundary_counterexample:
  "tokens world1 = [\<lparr>idT = 1, token = ''test-token'', userId = Some 1, lastUsedAt = 0\<rparr>] \<and>
   \<not> (604800000 - (0 :: int) > 7 * 24 * 60 * 60 * 1000) \<and>
   verify 604800000 604800000 ''test-token'' world1 = (Inl TypeError, world1)"
  by (simp add: world1_def verify_def Token_findOne_def)

text \<open>
  C4, as amended. A firing of the sweep with the store up deletes exactly the rows with
  \<open>now - lastUsedAt > 7 days\<close> and keeps all the others; as long as no firing fails, the
  next one comes one hour later. A store error during a firing is not caught inside the
  callback: its promise is rejected with the error and the table is as it was. Nothing
  handles the rejection, so it ends the process: no later firing runs, and the cleanup is
  not retried.
\<close>

theorem cleanup_spec:
  "fst (cleanup True now s) = Inr () \<and>
   tokens (snd (cleanup True now s)) =
     filter (\<lambda>r. now - lastUsedAt r \<le> 7 * 24 * 60 * 60 * 1000) (tokens s) \<and>
   trace (snd (cleanup True now s)) =
     trace s @ [TokenDestroyed (filter (\<lambda>r. now - lastUsedAt r > 7 * 24 * 60 * 60 * 1000) (tokens s))] \<and>
   users (snd (cleanup True now s)) = users s \<and>
   cleanup False now s = (Inl StoreError, s) \<and>
   scheduleCleanup t (True # ups) s =
     scheduleCleanup (t + 60 * 60 * 1000) ups (snd (cleanup True (t + 60 * 60 * 1000) s)) \<and>
   scheduleCleanup t (False # ups) s = (Some StoreError, s)"
proof -
  have keep: "(\<lambda>r. \<not> lastUsedAt r < now - 7 * 24 * 60 * 60 * 1000) =
              (\<lambda>r. now - lastUsedAt r \<le> 7 * 24 * 60 * 60 * 1000)"
    by (rule ext) arith
  have drop: "(\<lambda>r. lastUsedAt r < now - 7 * 24 * 60 * 60 * 1000) =
              (\<lambda>r. now - lastUsedAt r > 7 * 24 * 60 * 60 * 1000)"
    by (rule ext) arith
  have c1: "cleanup True now s =
      (Inr (), s\<lparr>tokens := filter (\<lambda>r. now - lastUsedAt r \<le> 7 * 24 * 60 * 60 * 1000) (tokens s),
                 trace := trace s @ [TokenDestroyed
                   (filter (\<lambda>r. now - lastUsedAt r > 7 * 24 * 60 * 60 * 1000) (tokens s))]\<rparr>)"
    unfolding cleanup_def Token_destroy_def Let_def keep drop by simp
  have c2: "cleanup False now s = (Inl StoreError, s)"
    by (simp add: cleanup_def)
  have s1: "scheduleCleanup t (True # ups) s =
     scheduleCleanup (t + 60 * 60 * 1000) ups (snd (cleanup True (t + 60 * 60 * 1000) s))"
    by (simp add: scheduleCleanup_def cleanup_def)
  have s2: "scheduleCleanup t (False # ups) s = (Some StoreError, s)"
    by (simp add: scheduleCleanup_def cleanup_def)
  from c1 c2 s1 s2 show ?thesis by simp
qed

theorem cleanup_spec_witness:
  "map token (tokens (snd (cleanup True 691200000 world2))) = [] \<and>
   map token (tokens (snd (cleanup True 604800000 world2))) = [''test-token'', ''token-1''] \<and>
   scheduleCleanup 687600000 [True] world2 = (None, snd (cleanup True 691200000 world2)) \<and>
   scheduleCleanup 687600000 [False] world2 = (Some StoreError, world2)"
  using cleanup_spec[of 691200000 world2] cleanup_spec[of 604800000 world2]
    cleanup_spec[of 691200000 world2 687600000 "[]"]
  by (simp add: world2_def scheduleCleanup_def)

text \<open>
  The claim as stated has every store error caught inside the sweep task and the cleanup
  retried one hour later. The callback has no handler: with the store down at the first
  firing its promise is rejected, the rejection ends the process, and the second firing,
  with the store up again, never runs: the two expired rows are still there.
\<close>

theorem cleanup_rejection_counterexample:
  "fst (cleanup False 691200000 world2) = Inl StoreError \<and>
   scheduleCleanup 687600000 [False, True] world2 = (Some StoreError, world2) \<and>
   map lastUsedAt (tokens world2) = [0, 0]"
  by (simp add: cleanup_def scheduleCleanup_def world2_def)

section \<open>Registration and activation\<close>

text \<open>
  C2. \<open>save\<close> (the spec's register). The transporter is called only after the insert
  went through, that is, when no stored user has the e-mail address. When it then accepts
  the activation mail, \<open>save\<close> succeeds and exactly one row is appended to the user
  table: it is inactive and holds the activation token, a string of 16 characters; the
  trace is Begin, the insert, the mail, Commit. When the transporter rejects the mail,
  \<open>save\<close> fails with EmailException and the user table, its counter and the token table
  are as before: no row persists; the trace shows the insert, the refused mail and the
  Rollback. When the address is already stored, the insert itself is refused: the same
  EmailException, no row, and no mail.
\<close>

theorem save_spec:
  "((\<forall>r \<in> set (users s). email r \<noteq> addr) \<and> transporter (activationMail addr (randomString src 16)) \<longrightarrow>
      (\<exists>row. fst (save transporter bcrypt_hash src (uname, addr, pw) s) = Inr () \<and>
         users (snd (save transporter bcrypt_hash src (uname, addr, pw) s)) = users s @ [row] \<and>
         inactive row \<and> activationToken row = Some (randomString src 16) \<and>
         length (randomString src 16) = 16 \<and>
         username row = uname \<and> email row = addr \<and> password row = bcrypt_hash pw \<and>
         trace (snd (save transporter bcrypt_hash src (uname, addr, pw) s)) =
           trace s @ [Begin, UserCreated row,
                      MailSent (activationMail addr (randomString src 16)) True, Commit])) \<and>
   (\<not> transporter (activationMail addr (randomString src 16)) \<longrightarrow>
      fst (save transporter bcrypt_hash src (uname, addr, pw) s) = Inl EmailException \<and>
      users (snd (save transporter bcrypt_hash src (uname, addr, pw) s)) = users s \<and>
      tokens (snd (save transporter bcrypt_hash src (uname, addr, pw) s)) = tokens s \<and>
      nextUserId (snd (save transporter bcrypt_hash src (uname, addr, pw) s)) = nextUserId s) \<and>
   ((\<forall>r \<in> set (users s). email r \<noteq> addr) \<and> \<not> transporter (activationMail addr (randomString src 16)) \<longrightarrow>
      (\<exists>row. trace (snd (save transporter bcrypt_hash src (uname, addr, pw) s)) =
           trace s @ [Begin, UserCreated row,
                      MailSent (activationMail addr (randomString src 16)) False, Rollback])) \<and>
   ((\<exists>r \<in> set (users s). email r = addr) \<longrightarrow>
      fst (save transporter bcrypt_hash src (uname, addr, pw) s) = Inl EmailException \<and>
      users (snd (save transporter bcrypt_hash src (uname, addr, pw) s)) = users s \<and>
      trace (snd (save transporter bcrypt_hash src (uname, addr, pw) s)) =
        trace s @ [Begin, Rollback])"
proof (intro conjI impI)
  assume a: "(\<forall>r \<in> set (users s). email r \<noteq> addr) \<and> transporter (activationMail addr (randomString src 16))"
  let ?row = "\<lparr>idU = nextUserId s, username = uname, email = addr, password = bcrypt_hash pw,
               activationToken = Some (randomString src 16), passwordResetToken = None,
               image = None, inactive = True\<rparr>"
  from a have free: "\<not> (\<exists>r \<in> set (users s). email r = addr)" by blast
  show "\<exists>row. fst (save transporter bcrypt_hash src (uname, addr, pw) s) = Inr () \<and>
         users (snd (save transporter bcrypt_hash src (uname, addr, pw) s)) = users s @ [row] \<and>
         inactive row \<and> activationToken row = Some (randomString src 16) \<and>
         length (randomString src 16) = 16 \<and>
         username row = uname \<and> email row = addr \<and> password row = bcrypt_hash pw \<and>
         trace (snd (save transporter bcrypt_hash src (uname, addr, pw) s)) =
           trace s @ [Begin, UserCreated row,
                      MailSent (activationMail addr (randomString src 16)) True, Commit]"
    using free a
    by (intro exI[of _ ?row])
       (simp add: save_def User_create_def transaction_def sendActivationToken_def sendMail_def
          commit_def Let_def length_randomString)
next
  assume f: "\<not> transporter (activationMail addr (randomString src 16))"
  then show "fst (save transporter bcrypt_hash src (uname, addr, pw) s) = Inl EmailException"
    by (simp add: save_def User_create_def transaction_def sendActivationToken_def sendMail_def
          rollback_def Let_def)
  from f show "users (snd (save transporter bcrypt_hash src (uname, addr, pw) s)) = users s"
    by (simp add: save_def User_create_def transaction_def sendActivationToken_def sendMail_def
          rollback_def Let_def)
  from f show "tokens (snd (save transporter bcrypt_hash src (uname, addr, pw) s)) = tokens s"
    by (simp add: save_def User_create_def transaction_def sendActivationToken_def sendMail_def
          rollback_def Let_def)
  from f show "nextUserId (snd (save transporter bcrypt_hash src (uname, addr, pw) s)) = nextUserId s"
    by (simp add: save_def User_create_def transaction_def sendActivationToken_def sendMail_def
          rollback_def Let_def)
next
  assume a: "(\<forall>r \<in> set (users s). email r \<noteq> addr) \<and> \<not> transporter (activationMail addr (randomString src 16))"
  let ?row = "\<lparr>idU = nextUserId s, username = uname, email = addr, password = bcrypt_hash pw,
               activationToken = Some (randomString src 16), passwordResetToken = None,
               image = None, inactive = True\<rparr>"
  from a have free: "\<not> (\<exists>r \<in> set (users s). email r = addr)" by blast
  show "\<exists>row. trace (snd (save transporter bcrypt_hash src (uname, addr, pw) s)) =
           trace s @ [Begin, UserCreated row,
                      MailSent (activationMail addr (randomString src 16)) False, Rollback]"
    using free a
    by (intro exI[of _ ?row])
       (simp add: save_def User_create_def transaction_def sendActivationToken_def sendMail_def
          rollback_def Let_def)
next
  assume u: "\<exists>r \<in> set (users s). email r = addr"
  then show "fst (save transporter bcrypt_hash src (uname, addr, pw) s) = Inl EmailException"
    by (simp add: save_def User_create_def transaction_def rollback_def Let_def)
  from u show "users (snd (save transporter bcrypt_hash src (uname, addr, pw) s)) = users s"
    by (simp add: save_def User_create_def transaction_def rollback_def Let_def)
  from u show "trace (snd (save transporter bcrypt_hash src (uname, addr, pw) s)) =
        trace s @ [Begin, Rollback]"
    by (simp add: save_def User_create_def transaction_def rollback_def Let_def)
qed

theorem save_spec_witness:
  "''user2@mail.com'' \<notin> email ` set (users world1) \<and>
   (\<lambda>_. True) (activationMail ''user2@mail.com'' (randomString (\<lambda>_. 0) 16)) \<and>
   fst (save (\<lambda>_. True) (\<lambda>p. ''hash-'' @ p) (\<lambda>_. 0) (''user2'', ''user2@mail.com'', ''P4ssword'') world1)
     = Inr () \<and>
   length (users (snd (save (\<lambda>_. True) (\<lambda>p. ''hash-'' @ p) (\<lambda>_. 0)
     (''user2'', ''user2@mail.com'', ''P4ssword'') world1))) = 2 \<and>
   \<not> (\<lambda>_. False) (activationMail ''user2@mail.com'' (randomString (\<lambda>_. 0) 16)) \<and>
   fst (save (\<lambda>_. False) (\<lambda>p. ''hash-'' @ p) (\<lambda>_. 0) (''user2'', ''user2@mail.com'', ''P4ssword'') world1)
     = Inl EmailException \<and>
   users (snd (save (\<lambda>_. False) (\<lambda>p. ''hash-'' @ p) (\<lambda>_. 0)
     (''user2'', ''user2@mail.com'', ''P4ssword'') world1)) = users world1 \<and>
   ''user1@mail.com'' \<in> email ` set (users world1) \<and>
   fst (save (\<lambda>_. True) (\<lambda>p. ''hash-'' @ p) (\<lambda>_. 0) (''user2'', ''user1@mail.com'', ''P4ssword'') world1)
     = Inl EmailException \<and>
   trace (snd (save (\<lambda>_. True) (\<lambda>p. ''hash-'' @ p) (\<lambda>_. 0)
     (''user2'', ''user1@mail.com'', ''P4ssword'') world1)) = [Begin, Rollback]"
proof -
  have free: "\<forall>r \<in> set (users world1). email r \<noteq> ''user2@mail.com''"
    by (simp add: world1_def user1_def)
  have used: "\<exists>r \<in> set (users world1). email r = ''user1@mail.com''"
    by (simp add: world1_def user1_def)
  have tr: "trace world1 = []" by (simp add: world1_def)
  from free used tr
    save_spec[of world1 "''user2@mail.com''" "\<lambda>_. True" "\<lambda>_. 0" "\<lambda>p. ''hash-'' @ p" "''user2''" "''P4ssword''"]
    save_spec[of world1 "''user2@mail.com''" "\<lambda>_. False" "\<lambda>_. 0" "\<lambda>p. ''hash-'' @ p" "''user2''" "''P4ssword''"]
    save_spec[of world1 "''user1@mail.com''" "\<lambda>_. True" "\<lambda>_. 0" "\<lambda>p. ''hash-'' @ p" "''user2''" "''P4ssword''"]
  show ?thesis by (auto simp: world1_def)
qed

text \<open>
  C7. \<open>activate\<close> with a token that no user holds fails with InvalidTokenEexception and
  leaves the whole store as it was. With a token held by one user \<open>u\<close> it succeeds, the
  row of \<open>u\<close> gets \<open>inactive = false\<close> and a null activation token while every other
  row is as before, the trace grows by one single write, and a second call with the same
  token fails with InvalidTokenEexception and changes nothing.
\<close>

theorem activate_spec:
  "((\<forall>u \<in> set (users s). activationToken u \<noteq> Some tok) \<longrightarrow>
      activate tok s = (Inl InvalidTokenEexception, s)) \<and>
   (distinct (map idU (users s)) \<and> u \<in> set (users s) \<and> activationToken u = Some tok \<and>
    (\<forall>v \<in> set (users s). activationToken v = Some tok \<longrightarrow> v = u) \<longrightarrow>
      fst (activate tok s) = Inr () \<and>
      users (snd (activate tok s)) =
        map (\<lambda>x. if x = u then u\<lparr>inactive := False, activationToken := None\<rparr> else x) (users s) \<and>
      trace (snd (activate tok s)) =
        trace s @ [UserSaved (u\<lparr>inactive := False, activationToken := None\<rparr>)] \<and>
      activate tok (snd (activate tok s)) = (Inl InvalidTokenEexception, snd (activate tok s)))"
proof (intro conjI impI)
  assume "\<forall>u \<in> set (users s). activationToken u \<noteq> Some tok"
  then have "List.find (\<lambda>r. activationToken r = Some tok) (users s) = None"
    by (simp add: find_None_iff_set)
  then show "activate tok s = (Inl InvalidTokenEexception, s)"
    by (simp add: activate_def User_findOne_def)
next
  assume a: "distinct (map idU (users s)) \<and> u \<in> set (users s) \<and> activationToken u = Some tok \<and>
    (\<forall>v \<in> set (users s). activationToken v = Some tok \<longrightarrow> v = u)"
  let ?u' = "u\<lparr>inactive := False, activationToken := None\<rparr>"
  let ?P = "\<lambda>r. activationToken r = Some tok"
  from a have d: "distinct (map idU (users s))" and mem: "u \<in> set (users s)"
    and holds: "activationToken u = Some tok"
    and only: "\<forall>v \<in> set (users s). activationToken v = Some tok \<longrightarrow> v = u"
    by blast+
  obtain w where w: "List.find ?P (users s) = Some w"
    using mem holds by (cases "List.find ?P (users s)") (auto simp: find_None_iff_set)
  have "w \<in> set (users s) \<and> activationToken w = Some tok"
    using find_Some_set[OF w] .
  with only have "w = u" by blast
  with w have f: "List.find ?P (users s) = Some u" by simp
  have act: "activate tok s = (Inr (), User_save ?u' s)"
    using f by (simp add: activate_def User_findOne_def)
  have us: "users (User_save ?u' s) = map (\<lambda>x. if x = u then ?u' else x) (users s)"
    using map_replace_by_key[OF d mem, of ?u'] by (simp add: User_save_def)
  have none: "\<forall>x \<in> set (users (User_save ?u' s)). \<not> ?P x"
  proof
    fix x assume "x \<in> set (users (User_save ?u' s))"
    then have "x = ?u' \<or> (x \<in> set (users s) \<and> x \<noteq> u)"
      unfolding us by auto
    with only show "\<not> ?P x" by auto
  qed
  then have "List.find ?P (users (User_save ?u' s)) = None"
    by (simp add: find_None_iff_set)
  then have again: "activate tok (User_save ?u' s) = (Inl InvalidTokenEexception, User_save ?u' s)"
    by (simp add: activate_def User_findOne_def)
  show "fst (activate tok s) = Inr ()" using act by simp
  show "users (snd (activate tok s)) = map (\<lambda>x. if x = u then ?u' else x) (users s)"
    using act us by simp
  show "trace (snd (activate tok s)) = trace s @ [UserSaved ?u']"
    using act by (simp add: User_save_def)
  show "activate tok (snd (activate tok s)) = (Inl InvalidTokenEexception, snd (activate tok s))"
    using act again by simp
qed

theorem activate_spec_witness:
  "Some ''some-invalid-token'' \<notin> activationToken ` set (users world2) \<and>
   activate ''some-invalid-token'' world2 = (Inl InvalidTokenEexception, world2) \<and>
   distinct (map idU (users world2)) \<and> user2 \<in> set (users world2) \<and>
   activationToken user2 = Some ''activation-token'' \<and>
   filter (\<lambda>v. activationToken v = Some ''activation-token'') (users world2) = [user2] \<and>
   fst (activate ''activation-token'' world2) = Inr () \<and>
   users (snd (activate ''activation-token'' world2)) =
     [user1, user2\<lparr>inactive := False, activationToken := None\<rparr>] \<and>
   fst (activate ''activation-token'' (snd (activate ''activation-token'' world2))) =
     Inl InvalidTokenEexception"
proof -
  have unknown: "\<forall>u \<in> set (users world2). activationToken u \<noteq> Some ''some-invalid-token''"
    by (simp add: world2_def user1_def user2_def)
  then have u1: "Some ''some-invalid-token'' \<notin> activationToken ` set (users world2)" by force
  have d: "distinct (map idU (users world2))" by (simp add: world2_def user1_def user2_def)
  have m: "user2 \<in> set (users world2)" by (simp add: world2_def)
  have h: "activationToken user2 = Some ''activation-token''" by (simp add: user2_def)
  have fl: "filter (\<lambda>v. activationToken v = Some ''activation-token'') (users world2) = [user2]"
    by (simp add: world2_def user1_def user2_def)
  have only: "\<forall>v \<in> set (users world2). activationToken v = Some ''activation-token'' \<longrightarrow> v = user2"
    by (simp add: world2_def user1_def user2_def)
  from activate_spec[of world2 "''some-invalid-token''"] unknown
  have a1: "activate ''some-invalid-token'' world2 = (Inl InvalidTokenEexception, world2)" by blast
  from activate_spec[of world2 "''activation-token''" user2] d m h only
  have a2: "fst (activate ''activation-token'' world2) = Inr () \<and>
      users (snd (activate ''activation-token'' world2)) =
        map (\<lambda>x. if x = user2 then user2\<lparr>inactive := False, activationToken := None\<rparr> else x) (users world2) \<and>
      activate ''activation-token'' (snd (activate ''activation-token'' world2)) =
        (Inl InvalidTokenEexception, snd (activate ''activation-token'' world2))"
    by blast
  then have a3: "users (snd (activate ''activation-token'' world2)) =
     [user1, user2\<lparr>inactive := False, activationToken := None\<rparr>]"
    by (simp add: world2_def user1_def user2_def)
  from a2 have a4: "fst (activate ''activation-token'' (snd (activate ''activation-token'' world2))) =
     Inl InvalidTokenEexception" by simp
  from u1 a1 d m h fl a2 a3 a4 show ?thesis by blast
qed

text \<open>
  C8. An active user holds no activation token: every operation of the two services
  keeps this invariant, in whatever state it is called, and every state that a sequence
  of operations reaches from the empty store satisfies it. (\<open>save\<close> inserts inactive rows only; \<open>activate\<close> and
  \<open>updatePassword\<close> null the activation token in the write that sets
  \<open>inactive = false\<close>; no other operation writes either column.)
\<close>

theorem user_invariant:
  "(user_inv s \<longrightarrow> user_inv (exec c s)) \<and> user_inv (run cs empty_world)"
proof (intro conjI impI)
  assume "user_inv s" then show "user_inv (exec c s)" by (rule exec_preserves_user_inv)
next
  show "user_inv (run cs empty_world)"
    by (rule run_preserves_user_inv[OF user_inv_empty])
qed

theorem user_invariant_witness:
  "user_inv world2 \<and>
   user_inv (exec (UpdatePassword (\<lambda>p. ''hash-'' @ p) ''reset-token'' ''P4ssword'') world2) \<and>
   map inactive (users (exec (UpdatePassword (\<lambda>p. ''hash-'' @ p) ''reset-token'' ''P4ssword'') world2))
     = [False, False] \<and>
   map activationToken
     (users (exec (UpdatePassword (\<lambda>p. ''hash-'' @ p) ''reset-token'' ''P4ssword'') world2))
     = [None, None] \<and>
   user_inv (run register_then_activate empty_world) \<and>
   map inactive (users (run register_then_activate empty_world)) = [False] \<and>
   map activationToken (users (run register_then_activate empty_world)) = [None]"
proof -
  have u: "map inactive (users (run register_then_activate empty_world)) = [False] \<and>
           map activationToken (users (run register_then_activate empty_world)) = [None]"
    by (simp add: register_then_activate_def save_def User_create_def transaction_def
          sendActivationToken_def sendMail_def commit_def Let_def empty_world_def rs0
          activate_def User_findOne_def User_save_def)
  have w2: "user_inv world2"
    by (simp add: user_inv_def world2_def user1_def user2_def)
  have v: "map inactive (users (exec (UpdatePassword (\<lambda>p. ''hash-'' @ p) ''reset-token'' ''P4ssword'') world2))
     = [False, False] \<and>
   map activationToken
     (users (exec (UpdatePassword (\<lambda>p. ''hash-'' @ p) ''reset-token'' ''P4ssword'') world2))
     = [None, None]"
    by (simp add: updatePassword_def findByPasswordResetToken_def User_findOne_def User_save_def
          clearTokens_def Token_destroy_def Let_def world2_def user1_def user2_def)
  from user_invariant[of world2 "UpdatePassword (\<lambda>p. ''hash-'' @ p) ''reset-token'' ''P4ssword''"
         register_then_activate] w2 u v
  show ?thesis by blast
qed

section \<open>Password reset\<close>

text \<open>
  C5. \<open>passwordResetRequest\<close> for a known e-mail address: the trace grows by the write of
  the user row with the fresh reset token and then by the call of the transporter, in this
  order and with no rollback; afterwards the user found under the address holds the token,
  whether the transporter accepted the mail or not; and the result is EmailException
  exactly when the transporter rejected the mail.
\<close>

theorem passwordResetRequest_spec:
  assumes "findByEmail addr s = Some u"
  shows "trace (snd (passwordResetRequest transporter src addr s)) =
           trace s @ [UserSaved (u\<lparr>passwordResetToken := Some (randomString src 16)\<rparr>),
                      MailSent (passwordResetMail addr (randomString src 16))
                        (transporter (passwordResetMail addr (randomString src 16)))] \<and>
         findByEmail addr (snd (passwordResetRequest transporter src addr s)) =
           Some (u\<lparr>passwordResetToken := Some (randomString src 16)\<rparr>) \<and>
         fst (passwordResetRequest transporter src addr s) =
           (if transporter (passwordResetMail addr (randomString src 16)) then Inr ()
            else Inl EmailException)"
proof (intro conjI)
  show "trace (snd (passwordResetRequest transporter src addr s)) =
           trace s @ [UserSaved (u\<lparr>passwordResetToken := Some (randomString src 16)\<rparr>),
                      MailSent (passwordResetMail addr (randomString src 16))
                        (transporter (passwordResetMail addr (randomString src 16)))]"
    using assms
    by (simp add: passwordResetRequest_def sendPasswordReset_def sendMail_def User_save_def Let_def)
  show "findByEmail addr (snd (passwordResetRequest transporter src addr s)) =
           Some (u\<lparr>passwordResetToken := Some (randomString src 16)\<rparr>)"
    by (rule findByEmail_passwordResetRequest[OF assms])
  show "fst (passwordResetRequest transporter src addr s) =
           (if transporter (passwordResetMail addr (randomString src 16)) then Inr ()
            else Inl EmailException)"
    using assms
    by (simp add: passwordResetRequest_def sendPasswordReset_def sendMail_def User_save_def Let_def)
qed

theorem passwordResetRequest_spec_witness:
  "findByEmail ''user1@mail.com'' world1 = Some user1 \<and>
   fst (passwordResetRequest (\<lambda>_. False) (\<lambda>_. 0) ''user1@mail.com'' world1) = Inl EmailException \<and>
   map passwordResetToken (users (snd (passwordResetRequest (\<lambda>_. False) (\<lambda>_. 0) ''user1@mail.com'' world1)))
     = [Some ''0000000000000000'']"
proof -
  have f: "findByEmail ''user1@mail.com'' world1 = Some user1"
    by (simp add: findByEmail_def User_findOne_def world1_def user1_def)
  have "map passwordResetToken (users (snd (passwordResetRequest (\<lambda>_. False) (\<lambda>_. 0) ''user1@mail.com'' world1)))
     = [Some ''0000000000000000'']"
    unfolding users_passwordResetRequest[OF f] rs0 by (simp add: world1_def)
  with f passwordResetRequest_spec[OF f, of "\<lambda>_. False" "\<lambda>_. 0"]
  show ?thesis by simp
qed


text \<open>
  C3. \<open>updatePassword\<close> with the reset token of user \<open>u\<close> (the spec's consumeReset)
  succeeds; the row of \<open>u\<close>, and no other, is rewritten with the hash of the new
  password, a null reset token, a null activation token and \<open>inactive = false\<close>; every
  token row of \<open>u\<close> is deleted; and \<open>verify\<close>, at any time, then fails on every token
  string that was carried by rows of \<open>u\<close> only (with unique token strings: on every token
  of \<open>u\<close>).
\<close>

theorem updatePassword_spec:
  assumes "findByPasswordResetToken r s = Some u" and "distinct (map idU (users s))"
  shows "fst (updatePassword bcrypt_hash r pw s) = Inr () \<and>
         users (snd (updatePassword bcrypt_hash r pw s)) =
           map (\<lambda>x. if x = u
                     then u\<lparr>password := bcrypt_hash pw, passwordResetToken := None,
                            inactive := False, activationToken := None\<rparr>
                     else x) (users s) \<and>
         tokens (snd (updatePassword bcrypt_hash r pw s)) =
           filter (\<lambda>t. userId t \<noteq> Some (idU u)) (tokens s) \<and>
         (\<forall>tok now now'.
            (\<forall>t \<in> set (tokens s). token t = tok \<longrightarrow> userId t = Some (idU u)) \<longrightarrow>
            fst (verify now now' tok (snd (updatePassword bcrypt_hash r pw s))) = Inl TypeError)"
proof -
  let ?u' = "u\<lparr>password := bcrypt_hash pw, passwordResetToken := None,
                inactive := False, activationToken := None\<rparr>"
  let ?s' = "snd (updatePassword bcrypt_hash r pw s)"
  have f: "List.find (\<lambda>x. passwordResetToken x = Some r) (users s) = Some u"
    using assms(1) by (simp add: findByPasswordResetToken_def User_findOne_def)
  then have mem: "u \<in> set (users s)" using find_Some_set[OF f] by simp
  have res: "fst (updatePassword bcrypt_hash r pw s) = Inr ()"
    using assms(1) by (simp add: updatePassword_def Let_def)
  have us: "users ?s' = map (\<lambda>x. if x = u then ?u' else x) (users s)"
    using assms(1) map_replace_by_key[OF assms(2) mem, of ?u']
    by (simp add: updatePassword_def Let_def clearTokens_def Token_destroy_def User_save_def)
  have ts: "tokens ?s' = filter (\<lambda>t. userId t \<noteq> Some (idU u)) (tokens s)"
    using assms(1)
    by (simp add: updatePassword_def Let_def clearTokens_def Token_destroy_def User_save_def)
  have v: "fst (verify now now' tok ?s') = Inl TypeError"
    if "\<forall>t \<in> set (tokens s). token t = tok \<longrightarrow> userId t = Some (idU u)" for tok now now'
  proof -
    have "\<forall>t \<in> set (tokens ?s'). token t \<noteq> tok"
      unfolding ts using that by auto
    from verify_no_row[OF this] show ?thesis by simp
  qed
  from res us ts v show ?thesis by blast
qed

theorem updatePassword_spec_witness:
  "findByPasswordResetToken ''reset-token'' world2 = Some user2 \<and>
   distinct (map idU (users world2)) \<and>
   fst (verify 1000 1001 ''token-1'' world2) = Inr (Some 2) \<and>
   users (snd (updatePassword (\<lambda>p. ''hash-'' @ p) ''reset-token'' ''P4ssword'' world2)) =
     [user1, user2\<lparr>password := ''hash-P4ssword'', passwordResetToken := None, inactive := False,
                   activationToken := None\<rparr>] \<and>
   map token (tokens (snd (updatePassword (\<lambda>p. ''hash-'' @ p) ''reset-token'' ''P4ssword'' world2))) =
     [''test-token''] \<and>
   fst (verify 1000 1001 ''token-1''
          (snd (updatePassword (\<lambda>p. ''hash-'' @ p) ''reset-token'' ''P4ssword'' world2))) =
     Inl TypeError"
proof -
  have f: "findByPasswordResetToken ''reset-token'' world2 = Some user2"
    by (simp add: findByPasswordResetToken_def User_findOne_def world2_def user1_def user2_def)
  have d: "distinct (map idU (users world2))"
    by (simp add: world2_def user1_def user2_def)
  have before: "fst (verify 1000 1001 ''token-1'' world2) = Inr (Some 2)"
    by (simp add: verify_def Token_findOne_def world2_def Let_def)
  have own: "\<forall>t \<in> set (tokens world2). token t = ''token-1'' \<longrightarrow> userId t = Some (idU user2)"
    by (simp add: world2_def user2_def)
  note spec = updatePassword_spec[OF f d, of "\<lambda>p. ''hash-'' @ p" "''P4ssword''"]
  from spec have us: "users (snd (updatePassword (\<lambda>p. ''hash-'' @ p) ''reset-token'' ''P4ssword'' world2)) =
     [user1, user2\<lparr>password := ''hash-P4ssword'', passwordResetToken := None, inactive := False,
                   activationToken := None\<rparr>]"
    by (simp add: world2_def user1_def user2_def)
  from spec have ts: "map token (tokens (snd (updatePassword (\<lambda>p. ''hash-'' @ p) ''reset-token'' ''P4ssword'' world2))) =
     [''test-token'']"
    by (simp add: world2_def user2_def)
  from spec own have v: "fst (verify 1000 1001 ''token-1''
          (snd (updatePassword (\<lambda>p. ''hash-'' @ p) ''reset-token'' ''P4ssword'' world2))) =
     Inl TypeError"
    by blast
  from f d before us ts v show ?thesis by blast
qed

text \<open>
  C10. Two requests in a row for a known e-mail address, the second drawing a secret
  different from the first, while no other user holds the first secret: after the first
  request the user holds the first secret; after the second the user holds the second
  one, the first matches no user any more, \<open>updatePassword\<close> with the first fails, and
  \<open>updatePassword\<close> with the second succeeds.
\<close>

theorem passwordResetRequest_supersedes:
  assumes "findByEmail addr s = Some u"
    and "randomString src1 16 \<noteq> randomString src2 16"
    and "\<forall>v \<in> set (users s). idU v \<noteq> idU u \<longrightarrow> passwordResetToken v \<noteq> Some (randomString src1 16)"
  shows "findByEmail addr (snd (passwordResetRequest tr1 src1 addr s)) =
           Some (u\<lparr>passwordResetToken := Some (randomString src1 16)\<rparr>) \<and>
         findByEmail addr
           (snd (passwordResetRequest tr2 src2 addr (snd (passwordResetRequest tr1 src1 addr s)))) =
           Some (u\<lparr>passwordResetToken := Some (randomString src2 16)\<rparr>) \<and>
         findByPasswordResetToken (randomString src1 16)
           (snd (passwordResetRequest tr2 src2 addr (snd (passwordResetRequest tr1 src1 addr s)))) =
           None \<and>
         fst (updatePassword bcrypt_hash (randomString src1 16) pw
           (snd (passwordResetRequest tr2 src2 addr (snd (passwordResetRequest tr1 src1 addr s))))) =
           Inl TypeError \<and>
         fst (updatePassword bcrypt_hash (randomString src2 16) pw
           (snd (passwordResetRequest tr2 src2 addr (snd (passwordResetRequest tr1 src1 addr s))))) =
           Inr ()"
proof -
  let ?r1 = "randomString src1 16" and ?r2 = "randomString src2 16"
  let ?u1 = "u\<lparr>passwordResetToken := Some ?r1\<rparr>"
  let ?u2 = "u\<lparr>passwordResetToken := Some ?r2\<rparr>"
  let ?s1 = "snd (passwordResetRequest tr1 src1 addr s)"
  let ?s2 = "snd (passwordResetRequest tr2 src2 addr ?s1)"
  have e1: "findByEmail addr ?s1 = Some ?u1"
    by (rule findByEmail_passwordResetRequest[OF assms(1)])
  have e2: "findByEmail addr ?s2 = Some ?u2"
    using findByEmail_passwordResetRequest[OF e1, of tr2 src2] by simp
  have us1: "users ?s1 = map (\<lambda>x. if idU x = idU u then ?u1 else x) (users s)"
    by (rule users_passwordResetRequest[OF assms(1)])
  have us2: "users ?s2 = map (\<lambda>x. if idU x = idU u then ?u2 else x) (users ?s1)"
    using users_passwordResetRequest[OF e1, of tr2 src2] by simp
  have others: "\<forall>x \<in> set (users ?s1). idU x \<noteq> idU u \<longrightarrow> passwordResetToken x \<noteq> Some ?r1"
    unfolding us1 using assms(3) by auto
  have "List.find (\<lambda>x. passwordResetToken x = Some ?r1) (users ?s2) = None"
    unfolding us2
    by (rule find_map_key_None) (use others assms(2) in auto)
  then have n: "findByPasswordResetToken ?r1 ?s2 = None"
    by (simp add: findByPasswordResetToken_def User_findOne_def)
  then have up1: "fst (updatePassword bcrypt_hash ?r1 pw ?s2) = Inl TypeError"
    by (simp add: updatePassword_def)
  have "?u2 \<in> set (users ?s2)"
    using e2 find_Some_set[of "\<lambda>r. email r = addr" "users ?s2" ?u2]
    by (simp add: findByEmail_def User_findOne_def)
  moreover have "passwordResetToken ?u2 = Some ?r2" by simp
  ultimately have "\<not> (\<forall>x \<in> set (users ?s2). passwordResetToken x \<noteq> Some ?r2)"
    by blast
  then have "List.find (\<lambda>x. passwordResetToken x = Some ?r2) (users ?s2) \<noteq> None"
    by (simp add: find_None_iff_set)
  then have up2: "fst (updatePassword bcrypt_hash ?r2 pw ?s2) = Inr ()"
    by (auto simp: updatePassword_def findByPasswordResetToken_def User_findOne_def Let_def)
  from e1 e2 n up1 up2 show ?thesis by blast
qed

theorem passwordResetRequest_supersedes_witness:
  "findByEmail ''user1@mail.com'' world1 = Some user1 \<and>
   randomString (\<lambda>_. 0) 16 \<noteq> randomString (\<lambda>_. 1) 16 \<and>
   filter (\<lambda>v. idU v \<noteq> idU user1) (users world1) = [] \<and>
   findByPasswordResetToken (randomString (\<lambda>_. 0) 16)
     (snd (passwordResetRequest (\<lambda>_. True) (\<lambda>_. 1) ''user1@mail.com''
        (snd (passwordResetRequest (\<lambda>_. True) (\<lambda>_. 0) ''user1@mail.com'' world1)))) = None \<and>
   fst (updatePassword (\<lambda>p. ''hash-'' @ p) (randomString (\<lambda>_. 1) 16) ''P4ssword''
     (snd (passwordResetRequest (\<lambda>_. True) (\<lambda>_. 1) ''user1@mail.com''
        (snd (passwordResetRequest (\<lambda>_. True) (\<lambda>_. 0) ''user1@mail.com'' world1))))) = Inr ()"
proof -
  have f: "findByEmail ''user1@mail.com'' world1 = Some user1"
    by (simp add: findByEmail_def User_findOne_def world1_def user1_def)
  have ne: "randomString (\<lambda>_. 0) 16 \<noteq> randomString (\<lambda>_. 1) 16"
    by (simp add: rs0 rs1)
  have fl: "filter (\<lambda>v. idU v \<noteq> idU user1) (users world1) = []"
    by (simp add: world1_def)
  have others: "\<forall>v \<in> set (users world1). idU v \<noteq> idU user1 \<longrightarrow>
      passwordResetToken v \<noteq> Some (randomString (\<lambda>_. 0) 16)"
    by (simp add: world1_def)
  from passwordResetRequest_supersedes[OF f ne others, of "\<lambda>_. True" "\<lambda>_. True" "\<lambda>p. ''hash-'' @ p" "''P4ssword''"]
    f ne fl
  show ?thesis by blast
qed

end
